theory Spec2Isabelle
  imports Main "HOL-Library.Sublist"
begin

section \<open>Strings\<close>

text \<open>
  Python strings are modelled as HOL strings; a character is read as the code point of the
  same number, so the model covers the code points 0 to 255. The white space of
  \<^verbatim>\<open>str.strip\<close>, \<^verbatim>\<open>str.isspace\<close> and the regular expression class
  \<^verbatim>\<open>\s\<close> in that range is: tab, line feed, vertical tab, form feed, carriage return,
  the four separators 0x1C to 0x1F, space, 0x85 and 0xA0.
\<close>

definition is_space :: "char \<Rightarrow> bool" where
  "is_space c = (c \<in> set [CHR 0x09, CHR 0x0A, CHR 0x0B, CHR 0x0C, CHR 0x0D,
                          CHR 0x1C, CHR 0x1D, CHR 0x1E, CHR 0x1F, CHR 0x20, CHR 0x85, CHR 0xA0])"

definition is_digit :: "char \<Rightarrow> bool" where
  "is_digit c = (c \<in> set ''0123456789'')"

definition lower :: "char \<Rightarrow> char" where
  "lower c = (case map_of (zip ''ABCDEFGHIJKLMNOPQRSTUVWXYZ'' ''abcdefghijklmnopqrstuvwxyz'') c of
                Some l \<Rightarrow> l | None \<Rightarrow> c)"

text \<open>\<^verbatim>\<open>s.strip()\<close>: leading and trailing white space removed.\<close>

definition strip :: "string \<Rightarrow> string" where
  "strip s = rev (dropWhile is_space (rev (dropWhile is_space s)))"

text \<open>\<^verbatim>\<open>s.split(sep)\<close> for a one-character separator: always at least one part.\<close>

fun str_split :: "string \<Rightarrow> char \<Rightarrow> string list" where
  "str_split [] sep = [] # []"
| "str_split (c # cs) sep =
     (if c = sep then [] # str_split cs sep
      else (case str_split cs sep of p # ps \<Rightarrow> (c # p) # ps | [] \<Rightarrow> [c] # []))"

text \<open>\<^verbatim>\<open>int(s)\<close> on a string of decimal digits, white space around it ignored.\<close>

definition digit_val :: "char \<Rightarrow> int" where
  "digit_val c = int (length (takeWhile (\<lambda>d. d \<noteq> c) ''0123456789''))"

definition py_int :: "string \<Rightarrow> int" where
  "py_int s = foldl (\<lambda>acc c. 10 * acc + digit_val c) 0 (strip s)"

section \<open>Cells of a table\<close>

text \<open>
  A cell of the report read by pandas is a string, or \<open>NaN\<close> when the field is missing
  (the spec's data model: a slot holds a date string or is empty).
\<close>

datatype cell = NaN | Str string

text \<open>\<^verbatim>\<open>pd.notna(v) and v.strip()\<close>: the cell holds a string that is not blank.\<close>

fun filled :: "cell \<Rightarrow> bool" where
  "filled NaN = False"
| "filled (Str s) = (strip s \<noteq> [])"

section \<open>Dates\<close>

record datetime =
  year :: int
  month :: int
  day :: int

definition is_leap :: "int \<Rightarrow> bool" where
  "is_leap y = (y mod 4 = 0 \<and> (y mod 100 \<noteq> 0 \<or> y mod 400 = 0))"

definition days_in_month :: "int \<Rightarrow> int \<Rightarrow> int" where
  "days_in_month y m =
     (if m = 2 then (if is_leap y then 29 else 28)
      else if m \<in> set [4, 6, 9, 11] then 30 else 31)"

text \<open>The range check of the \<^verbatim>\<open>date\<close> constructor (a \<^verbatim>\<open>ValueError\<close> outside it).\<close>

definition valid_date :: "int \<Rightarrow> int \<Rightarrow> int \<Rightarrow> bool" where
  "valid_date y m d = (1 \<le> y \<and> y \<le> 9999 \<and> 1 \<le> m \<and> m \<le> 12 \<and> 1 \<le> d \<and> d \<le> days_in_month y m)"

subsection \<open>The library's strptime, for the directives the program uses\<close>

text \<open>
  \<^verbatim>\<open>datetime.strptime\<close> turns the format into a regular expression, matches it
  case-insensitively at the start of the string, rejects a match that leaves text over,
  converts the groups it found and builds the date. A format is kept here as the list of
  its parts: \<^verbatim>\<open>%b-%y-%d\<close> is \<open>[Dir_b, Literal CHR ''-'', Dir_y, Literal CHR ''-'', Dir_d]\<close>
  and a run of white space in the format is \<open>Spaces\<close> (the expression \<^verbatim>\<open>\s+\<close>).
  Month names are those of the C locale.
\<close>

datatype directive = Dir_b | Dir_d | Dir_y | Dir_Y | Spaces | Literal char

definition a_month :: "string list" where
  "a_month = ['''', ''jan'', ''feb'', ''mar'', ''apr'', ''may'', ''jun'',
              ''jul'', ''aug'', ''sep'', ''oct'', ''nov'', ''dec'']"

fun try1 :: "(char \<Rightarrow> bool) \<Rightarrow> string \<Rightarrow> (string \<times> string) list" where
  "try1 P (a # r) = (if P a then [([a], r)] else [])"
| "try1 P [] = []"

fun try2 :: "(char \<Rightarrow> char \<Rightarrow> bool) \<Rightarrow> string \<Rightarrow> (string \<times> string) list" where
  "try2 P (a # b # r) = (if P a b then [([a, b], r)] else [])"
| "try2 P [a] = []"
| "try2 P [] = []"

text \<open>
  The ways one part of the expression matches a prefix of the text, as pairs of the
  matched text and the rest, in the order in which the matcher tries them:
  \<^verbatim>\<open>%d\<close> is \<^verbatim>\<open>3[0-1]|[1-2]\d|0[1-9]|[1-9]| [1-9]\<close>, \<^verbatim>\<open>%y\<close> is \<^verbatim>\<open>\d\d\<close>,
  \<^verbatim>\<open>%Y\<close> is \<^verbatim>\<open>\d\d\d\d\<close>, \<^verbatim>\<open>%b\<close> is the alternation of the twelve
  abbreviations, \<^verbatim>\<open>\s+\<close> is greedy.
\<close>

fun alts :: "directive \<Rightarrow> string \<Rightarrow> (string \<times> string) list" where
  "alts Dir_b s =
     (if map lower (take 3 s) \<in> set (tl a_month) then [(take 3 s, drop 3 s)] else [])"
| "alts Dir_d s =
     try2 (\<lambda>a b. a = CHR ''3'' \<and> b \<in> set ''01'') s @
     try2 (\<lambda>a b. a \<in> set ''12'' \<and> is_digit b) s @
     try2 (\<lambda>a b. a = CHR ''0'' \<and> b \<in> set ''123456789'') s @
     try1 (\<lambda>a. a \<in> set ''123456789'') s @
     try2 (\<lambda>a b. a = CHR '' '' \<and> b \<in> set ''123456789'') s"
| "alts Dir_y s = try2 (\<lambda>a b. is_digit a \<and> is_digit b) s"
| "alts Dir_Y s =
     (if 4 \<le> length s \<and> list_all is_digit (take 4 s) then [(take 4 s, drop 4 s)] else [])"
| "alts Spaces s =
     map (\<lambda>k. (take k s, drop k s)) (rev [1 ..< Suc (length (takeWhile is_space s))])"
| "alts (Literal c) s = try1 (\<lambda>a. a = c) s"

fun first_some :: "('a \<Rightarrow> 'b option) \<Rightarrow> 'a list \<Rightarrow> 'b option" where
  "first_some f [] = None"
| "first_some f (x # xs) = (case f x of Some y \<Rightarrow> Some y | None \<Rightarrow> first_some f xs)"

text \<open>
  \<^verbatim>\<open>format_regex.match(data_string)\<close>: the first way, with backtracking, in which the whole
  expression matches a prefix; the result is the groups found and the text left over.
\<close>

fun re_match :: "directive list \<Rightarrow> string \<Rightarrow> ((directive \<times> string) list \<times> string) option" where
  "re_match [] s = Some ([], s)"
| "re_match (t # ts) s =
     first_some (\<lambda>mr. map_option (\<lambda>fe. ((t, fst mr) # fst fe, snd fe)) (re_match ts (snd mr)))
       (alts t s)"

text \<open>The conversion of one group; the year starts at 1900, month and day at 1.\<close>

fun convert :: "directive \<times> string \<Rightarrow> datetime \<Rightarrow> datetime" where
  "convert (Dir_y, m) t = t\<lparr>year := (if py_int m \<le> 68 then py_int m + 2000 else py_int m + 1900)\<rparr>"
| "convert (Dir_Y, m) t = t\<lparr>year := py_int m\<rparr>"
| "convert (Dir_b, m) t = t\<lparr>month := int (length (takeWhile (\<lambda>n. n \<noteq> map lower m) a_month))\<rparr>"
| "convert (Dir_d, m) t = t\<lparr>day := py_int m\<rparr>"
| "convert (Spaces, m) t = t"
| "convert (Literal c, m) t = t"

text \<open>\<open>None\<close> is the \<^verbatim>\<open>ValueError\<close> that strptime raises.\<close>

definition strptime :: "string \<Rightarrow> directive list \<Rightarrow> datetime option" where
  "strptime data_string fmt =
     (case re_match fmt data_string of
        None \<Rightarrow> None
      | Some (found, rest) \<Rightarrow>
          if rest \<noteq> [] then None
          else (let t = fold convert found \<lparr>year = 1900, month = 1, day = 1\<rparr>
                in if valid_date (year t) (month t) (day t) then Some t else None))"

subsection \<open>parse_date, calculate_months_since, calculate_date_points\<close>

definition DATE_FACTOR :: int where
  "DATE_FACTOR = 1"

text \<open>
  Every exception is caught and turned into \<open>None\<close>: the \<^verbatim>\<open>ValueError\<close> of strptime,
  and the \<^verbatim>\<open>AttributeError\<close> of \<^verbatim>\<open>split\<close> on a missing value.
\<close>

fun parse_date :: "cell \<Rightarrow> datetime option" where
  "parse_date NaN = None"
| "parse_date (Str date_str) =
     (if length (str_split date_str CHR ''-'') = 2
      then strptime (date_str @ ''-01'') [Dir_b, Literal CHR ''-'', Dir_y, Literal CHR ''-'', Dir_d]
      else strptime date_str [Dir_d, Spaces, Dir_b, Spaces, Dir_Y])"

text \<open>\<open>today\<close> is the value of \<^verbatim>\<open>datetime.now()\<close>.\<close>

definition calculate_months_since :: "datetime \<Rightarrow> cell \<Rightarrow> int" where
  "calculate_months_since today date_str =
     (if date_str = Str [] then 0
      else (case parse_date date_str of
              None \<Rightarrow> 0
            | Some parsed_date \<Rightarrow>
                max 0 ((year today - year parsed_date) * 12 + (month today - month parsed_date))))"

definition calculate_date_points :: "datetime \<Rightarrow> cell \<Rightarrow> int" where
  "calculate_date_points today last_powered = calculate_months_since today last_powered * DATE_FACTOR"

section \<open>The Scorer\<close>

text \<open>
  An exception that leaves a function is a value: \<open>KeyError c\<close> is the look-up of a column
  \<open>c\<close> that the row does not have, \<open>ValueError cs\<close> is the schema error of
  \<^verbatim>\<open>validate_dataframe\<close>, carrying the names it lists (the program prints them as a
  set, in no fixed order).
\<close>

datatype error = KeyError string | ValueError "string list"

text \<open>A row handed to a function by \<^verbatim>\<open>df.apply(f, axis=1)\<close>: the cells under their column names.\<close>

type_synonym series = "(string \<times> cell) list"

definition getitem :: "series \<Rightarrow> string \<Rightarrow> error + cell" where
  "getitem row col = (case map_of row col of None \<Rightarrow> Inl (KeyError col) | Some v \<Rightarrow> Inr v)"

definition NO_FLIGHT_FACTOR :: int where
  "NO_FLIGHT_FACTOR = 5"

definition FLIGHT_FACTOR :: int where
  "FLIGHT_FACTOR = 5"

definition REQUIRED_COLUMNS :: "string list" where
  "REQUIRED_COLUMNS = [''Miles'', ''Textbox39'', ''Textbox25'', ''GroupType'', ''Joined'']"

text \<open>The name \<^verbatim>\<open>f'powered_{i}'\<close>, for the one-digit \<open>i\<close> of the loops.\<close>

definition powered_col :: "nat \<Rightarrow> string" where
  "powered_col i = ''powered_'' @ [''0123456789'' ! i]"

text \<open>\<^verbatim>\<open>find_last_powered_date\<close>: the loop over \<^verbatim>\<open>range(5, 0, -1)\<close>, then the joined date.\<close>

fun find_last_loop :: "series \<Rightarrow> nat list \<Rightarrow> error + cell" where
  "find_last_loop row [] = getitem row ''Joined''"
| "find_last_loop row (i # rest) =
     (case getitem row (powered_col i) of
        Inl e \<Rightarrow> Inl e
      | Inr v \<Rightarrow> if filled v then Inr v else find_last_loop row rest)"

definition find_last_powered_date :: "series \<Rightarrow> error + cell" where
  "find_last_powered_date row = find_last_loop row [5, 4, 3, 2, 1]"

text \<open>\<^verbatim>\<open>count_powered_flights\<close>: the loop over \<^verbatim>\<open>range(1, 6)\<close> with its counter.\<close>

fun count_loop :: "series \<Rightarrow> nat list \<Rightarrow> int \<Rightarrow> error + int" where
  "count_loop row [] count = Inr count"
| "count_loop row (i # rest) count =
     (case getitem row (powered_col i) of
        Inl e \<Rightarrow> Inl e
      | Inr v \<Rightarrow> count_loop row rest (if filled v then count + 1 else count))"

definition count_powered_flights :: "series \<Rightarrow> error + int" where
  "count_powered_flights row = count_loop row [1, 2, 3, 4, 5] 0"

text \<open>
  The columns that \<^verbatim>\<open>process_data\<close> adds are integers it has computed itself; they are
  fields of the row beside the cells of the report.
\<close>

record counted =
  report :: series
  powered_count :: int

record scored = counted +
  last_powered :: cell
  flight_points :: int
  date_points :: int
  total_points :: int

definition calculate_flight_points :: "'a counted_scheme \<Rightarrow> error + int" where
  "calculate_flight_points row =
     (case getitem (report row) ''GroupType'' of
        Inl e \<Rightarrow> Inl e
      | Inr g \<Rightarrow>
          if g = Str ''No O-Flights''
          then Inr ((5 - powered_count row) * FLIGHT_FACTOR + NO_FLIGHT_FACTOR)
          else Inr ((5 - powered_count row) * FLIGHT_FACTOR))"

definition calculate_total_points :: "int \<Rightarrow> int \<Rightarrow> int" where
  "calculate_total_points flight date = flight + date"

subsection \<open>The table and process_data\<close>

record dataframe =
  columns :: "string list"
  cells :: "cell list list"

definition iterrows :: "dataframe \<Rightarrow> series list" where
  "iterrows df = map (zip (columns df)) (cells df)"

definition validate_dataframe :: "dataframe \<Rightarrow> error + unit" where
  "validate_dataframe df =
     (let missing_columns = filter (\<lambda>c. c \<notin> set (columns df)) REQUIRED_COLUMNS
      in if missing_columns \<noteq> [] then Inl (ValueError missing_columns) else Inr ())"

definition column_mapping :: "(string \<times> string) list" where
  "column_mapping =
     [(''Miles'', ''18+''), (''Textbox39'', ''Wing''), (''Textbox25'', ''Unit''),
      (''Textbox130'', ''glider_1''), (''Textbox131'', ''glider_2''), (''Textbox132'', ''glider_3''),
      (''Textbox133'', ''glider_4''), (''Textbox134'', ''glider_5''),
      (''Textbox135'', ''powered_1''), (''Textbox136'', ''powered_2''), (''Textbox137'', ''powered_3''),
      (''Textbox138'', ''powered_4''), (''Textbox139'', ''powered_5'')]"

definition rename_columns :: "dataframe \<Rightarrow> dataframe" where
  "rename_columns df =
     df\<lparr>columns := map (\<lambda>c. case map_of column_mapping c of Some n \<Rightarrow> n | None \<Rightarrow> c) (columns df)\<rparr>"

text \<open>\<^verbatim>\<open>df.apply(f, axis=1)\<close>: \<open>f\<close> on every row in turn; the first exception ends it.\<close>

fun df_apply :: "('r \<Rightarrow> error + 'v) \<Rightarrow> 'r list \<Rightarrow> error + 'v list" where
  "df_apply f [] = Inr []"
| "df_apply f (r # rs) =
     (case f r of
        Inl e \<Rightarrow> Inl e
      | Inr v \<Rightarrow> (case df_apply f rs of Inl e \<Rightarrow> Inl e | Inr vs \<Rightarrow> Inr (v # vs)))"

text \<open>
  \<^verbatim>\<open>df.sort_values('total_points', ascending=False)\<close> asks pandas for its default sort,
  \<^verbatim>\<open>kind='quicksort'\<close>. That algorithm is the library's, not the program's: it is the
  parameter \<open>argsort\<close>, which gives, for the column of keys, the positions of the rows in
  their new order.
\<close>

definition sort_values :: "(int list \<Rightarrow> nat list) \<Rightarrow> ('r \<Rightarrow> int) \<Rightarrow> 'r list \<Rightarrow> 'r list" where
  "sort_values argsort by df = map (\<lambda>i. df ! i) (argsort (map by df))"

text \<open>
  What the library promises of that sort: every position once, keys from largest to
  smallest. The order among equal keys is not part of it.
\<close>

definition sorts_descending :: "(int list \<Rightarrow> nat list) \<Rightarrow> bool" where
  "sorts_descending argsort =
     (\<forall>keys. distinct (argsort keys) \<and> set (argsort keys) = {0 ..< length keys} \<and>
             sorted (rev (map (\<lambda>i. keys ! i) (argsort keys))))"

definition process_data ::
  "(int list \<Rightarrow> nat list) \<Rightarrow> datetime \<Rightarrow> dataframe \<Rightarrow> error + scored list" where
  "process_data argsort today df0 =
     (case validate_dataframe df0 of
        Inl e \<Rightarrow> Inl e
      | Inr ok \<Rightarrow>
     (let df = iterrows (rename_columns df0) in
      case df_apply count_powered_flights df of
        Inl e \<Rightarrow> Inl e
      | Inr counts \<Rightarrow>
     (let df1 = map (\<lambda>(r, n). \<lparr>report = r, powered_count = n\<rparr>) (zip df counts) in
      case df_apply (\<lambda>row. find_last_powered_date (report row)) df1 of
        Inl e \<Rightarrow> Inl e
      | Inr lasts \<Rightarrow>
     (case df_apply calculate_flight_points df1 of
        Inl e \<Rightarrow> Inl e
      | Inr flights \<Rightarrow>
     (let dates = map (calculate_date_points today) lasts;
          df2 = map (\<lambda>(row, l, f, d).
                  \<lparr>report = report row, powered_count = powered_count row, last_powered = l,
                   flight_points = f, date_points = d,
                   total_points = calculate_total_points f d\<rparr>)
                  (zip df1 (zip lasts (zip flights dates)))
      in Inr (sort_values argsort total_points df2))))))"

section \<open>The Slotter\<close>

subsection \<open>The candidate list\<close>

text \<open>
  The file is \<open>None\<close> when it cannot be opened or read (any exception gives the empty
  list), and otherwise the list of its lines. The loop keeps the list built so far and the
  set of identifiers seen.
\<close>

fun read_loop :: "string list \<Rightarrow> string list \<Rightarrow> string set \<Rightarrow> string list" where
  "read_loop [] cap_ids seen = cap_ids"
| "read_loop (line # rest) cap_ids seen =
     (let cap_id = strip line
      in if cap_id \<noteq> [] \<and> cap_id \<notin> seen
         then read_loop rest (cap_ids @ [cap_id]) (insert cap_id seen)
         else read_loop rest cap_ids seen)"

definition read_cadet_list :: "string list option \<Rightarrow> string list" where
  "read_cadet_list file = (case file of None \<Rightarrow> [] | Some lines \<Rightarrow> read_loop lines [] {})"

text \<open>
  The spec's words for the same list: of the values given, each one once, at the place
  where it comes first.
\<close>

fun keep_first :: "'a list \<Rightarrow> 'a list" where
  "keep_first [] = []"
| "keep_first (x # xs) = x # keep_first (filter (\<lambda>y. y \<noteq> x) xs)"

subsection \<open>The table of points\<close>

text \<open>
  A row of \<^verbatim>\<open>oflight_points.csv\<close> as \<^verbatim>\<open>read_csv\<close> returns it: the columns the Scorer
  wrote, and the identifier with the type pandas has given its column, an integer when
  every field of the column is a number and the text of the field otherwise.
\<close>

datatype scalar = IntVal int | TextVal string

record listed = scored +
  CAPID :: scalar

text \<open>\<^verbatim>\<open>str(n)\<close> for an integer, and \<^verbatim>\<open>astype(str)\<close> on one value.\<close>

fun str_nat :: "nat \<Rightarrow> string" where
  "str_nat n = (if n < 10 then [''0123456789'' ! n]
                else str_nat (n div 10) @ [''0123456789'' ! (n mod 10)])"

definition str_int :: "int \<Rightarrow> string" where
  "str_int i = (if i < 0 then CHR ''-'' # str_nat (nat (- i)) else str_nat (nat i))"

fun astype_str :: "scalar \<Rightarrow> scalar" where
  "astype_str (IntVal n) = TextVal (str_int n)"
| "astype_str (TextVal s) = TextVal s"

text \<open>\<^verbatim>\<open>isin\<close> on one value: equality with a string of the list, which no integer has.\<close>

fun isin :: "scalar \<Rightarrow> string list \<Rightarrow> bool" where
  "isin (TextVal s) values = (s \<in> set values)"
| "isin (IntVal n) values = False"

definition filter_cadets :: "string list \<Rightarrow> listed list \<Rightarrow> listed list" where
  "filter_cadets cap_ids df0 =
     (let df = map (\<lambda>r. r\<lparr>CAPID := astype_str (CAPID r)\<rparr>) df0
      in filter (\<lambda>r. isin (CAPID r) cap_ids) df)"

definition find_unmatched :: "string list \<Rightarrow> listed list \<Rightarrow> string list" where
  "find_unmatched cap_ids filtered_df =
     (let matched_ids = set (map CAPID filtered_df)
      in filter (\<lambda>cap_id. TextVal cap_id \<notin> matched_ids) cap_ids)"

subsection \<open>The report\<close>

text \<open>
  The file written, line by line. \<open>Rule n\<close> is a line of \<open>n\<close> equals signs, \<open>Header\<close> the
  line of column titles, \<open>Entry i row\<close> the line formatted from the index \<open>i\<close> and the
  fields of \<open>row\<close> (the fixed-width layout of a line is not modelled).
\<close>

datatype line = Text string | Rule nat | Header | Entry int listed

text \<open>\<^verbatim>\<open>enumerate(rows, start)\<close>, \<^verbatim>\<open>df.head(n)\<close> and \<^verbatim>\<open>df.iloc[n:]\<close>; a negative \<open>n\<close>
  counts from the end, as in Python.\<close>

definition py_enumerate :: "int \<Rightarrow> 'a list \<Rightarrow> (int \<times> 'a) list" where
  "py_enumerate start xs = zip (map (\<lambda>k. start + int k) [0 ..< length xs]) xs"

definition head :: "int \<Rightarrow> 'a list \<Rightarrow> 'a list" where
  "head n df = (if 0 \<le> n then take (nat n) df else take (length df - nat (- n)) df)"

definition iloc_from :: "int \<Rightarrow> 'a list \<Rightarrow> 'a list" where
  "iloc_from n df = (if 0 \<le> n then drop (nat n) df else drop (length df - nat (- n)) df)"

definition write_rows :: "int \<Rightarrow> listed list \<Rightarrow> line list" where
  "write_rows start df = map (\<lambda>(i, row). Entry i row) (py_enumerate start df)"

definition write_slotting_results :: "listed list \<Rightarrow> string list \<Rightarrow> int option \<Rightarrow> line list" where
  "write_slotting_results sorted_df unmatched_ids slot_count =
     (case slot_count of
        None \<Rightarrow>
          [Text ''Cadets sorted by total points:'', Rule 70, Header] @ write_rows 1 sorted_df
      | Some n \<Rightarrow>
          if n \<noteq> 0 \<and> n < int (length sorted_df)
          then [Text ''Primary Slots:'', Rule 70, Header] @ write_rows 1 (head n sorted_df) @
               [Text [], Text ''Alternates:'', Rule 70, Header] @
               write_rows (n + 1) (iloc_from n sorted_df)
          else [Text ''Cadets sorted by total points:'', Rule 70, Header] @ write_rows 1 sorted_df)
     @ (if unmatched_ids \<noteq> []
        then [Text [], Text ''Unmatched CAP IDs:'', Rule 20] @ map Text unmatched_ids
        else [])"

definition slots_command ::
  "(int list \<Rightarrow> nat list) \<Rightarrow> string list option \<Rightarrow> listed list \<Rightarrow> int option \<Rightarrow> line list" where
  "slots_command argsort cadet_list df slot_count =
     (let cap_ids = read_cadet_list cadet_list;
          filtered_df = filter_cadets cap_ids df;
          sorted_df = sort_values argsort total_points filtered_df;
          unmatched_ids = find_unmatched cap_ids filtered_df
      in write_slotting_results sorted_df unmatched_ids slot_count)"

subsection \<open>The identifier column as read_csv types it\<close>

text \<open>
  \<^verbatim>\<open>pd.read_csv\<close> is called without a \<^verbatim>\<open>dtype\<close>, so pandas infers the type of each
  column: a column whose fields are all strings of decimal digits (below \<open>2 ^ 63\<close>) becomes
  a column of integers, and a column with a field that is no number keeps its text. Only
  these two cases are modelled; the other fields pandas reads as numbers (a sign, a
  fraction, white space, an empty field) are outside this function.
\<close>

definition read_csv_ids :: "string list \<Rightarrow> scalar list" where
  "read_csv_ids texts =
     (if list_all (\<lambda>f. f \<noteq> [] \<and> list_all is_digit f \<and> py_int f < 2 ^ 63) texts
      then map (\<lambda>f. IntVal (py_int f)) texts
      else map TextVal texts)"

section \<open>Definitions for comparison\<close>

text \<open>
  The spec's words for the report: with a slot count \<open>N\<close> and more than \<open>N\<close> records, the
  first \<open>N\<close> are the primary group and the rest the alternates; otherwise one list.
\<close>

definition spec_slotting_results :: "listed list \<Rightarrow> string list \<Rightarrow> int option \<Rightarrow> line list" where
  "spec_slotting_results sorted_df unmatched_ids slot_count =
     (case slot_count of
        None \<Rightarrow>
          [Text ''Cadets sorted by total points:'', Rule 70, Header] @ write_rows 1 sorted_df
      | Some n \<Rightarrow>
          if n < int (length sorted_df)
          then [Text ''Primary Slots:'', Rule 70, Header] @ write_rows 1 (take (nat n) sorted_df) @
               [Text [], Text ''Alternates:'', Rule 70, Header] @
               write_rows (n + 1) (drop (nat n) sorted_df)
          else [Text ''Cadets sorted by total points:'', Rule 70, Header] @ write_rows 1 sorted_df)
     @ (if unmatched_ids \<noteq> []
        then [Text [], Text ''Unmatched CAP IDs:'', Rule 20] @ map Text unmatched_ids
        else [])"

text \<open>
  A sort that keeps what \<open>sorts_descending\<close> asks, to run the model on examples. On keys
  that are all different every such sort gives the same order.
\<close>

definition ref_argsort :: "int list \<Rightarrow> nat list" where
  "ref_argsort keys = map snd (sort_key (\<lambda>p. - fst p) (zip keys [0 ..< length keys]))"

section \<open>Example data\<close>

text \<open>
  A row of the table of points with the identifier \<open>c\<close> and the total \<open>t\<close>, a report that
  has the required and the powered columns and no glider column, and a day for today.
\<close>

definition points_row :: "scalar \<Rightarrow> int \<Rightarrow> listed" where
  "points_row c t =
     \<lparr>report = [], powered_count = 0, last_powered = Str ''01 Jan 2023'', flight_points = t,
      date_points = 0, total_points = t, CAPID = c\<rparr>"

definition report_no_gliders :: dataframe where
  "report_no_gliders =
     \<lparr>columns = [''Miles'', ''Textbox39'', ''Textbox25'', ''GroupType'', ''Joined'',
                 ''Textbox135'', ''Textbox136'', ''Textbox137'', ''Textbox138'', ''Textbox139''],
      cells = [NaN, Str ''W'', Str ''U'', Str ''No O-Flights'', Str ''01 Jan 2023'',
               NaN, NaN, NaN, NaN, NaN] # []\<rparr>"

definition sep_2023 :: datetime where
  "sep_2023 = \<lparr>year = 2023, month = 9, day = 9\<rparr>"

section \<open>The sort used in the examples\<close>

lemma ref_argsort_sorts: "sorts_descending ref_argsort"
proof -
  have "distinct (ref_argsort keys) \<and> set (ref_argsort keys) = {0 ..< length keys} \<and>
        sorted (rev (map (\<lambda>i. keys ! i) (ref_argsort keys)))" for keys
  proof -
    define zs where "zs = zip keys [0 ..< length keys]"
    define zs' where "zs' = sort_key (\<lambda>p. - fst p) zs"
    have snd_zs: "map snd zs = [0 ..< length keys]" by (simp add: zs_def)
    have set': "set zs' = set zs" and dist': "distinct zs' = distinct zs"
      by (simp_all add: zs'_def)
    have "distinct (map snd zs)" by (simp add: snd_zs)
    then have "distinct zs \<and> inj_on snd (set zs)" by (simp add: distinct_map)
    then have d: "distinct (map snd zs')" by (simp add: distinct_map set' dist')
    have "set (map snd zs') = set (map snd zs)" by (simp add: set')
    then have s: "set (map snd zs') = {0 ..< length keys}" by (simp add: snd_zs)
    have fst_of: "keys ! snd p = fst p" if "p \<in> set zs" for p
      using that by (auto simp: zs_def set_zip)
    have "map (\<lambda>i. keys ! i) (map snd zs') = map fst zs'"
      using fst_of by (simp add: set')
    moreover have "sorted (map (\<lambda>p. - fst p) zs')"
      unfolding zs'_def by (rule sorted_sort_key)
    then have "sorted (rev (map fst zs'))"
      by (simp add: sorted_wrt_rev sorted_wrt_map)
    ultimately have "sorted (rev (map (\<lambda>i. keys ! i) (map snd zs')))" by (simp only:)
    moreover have "ref_argsort keys = map snd zs'" by (simp add: ref_argsort_def zs_def zs'_def)
    ultimately show ?thesis using d s by simp
  qed
  then show ?thesis by (simp add: sorts_descending_def)
qed

section \<open>Flight points and date points\<close>

text \<open>
  Claim C1. For every record that has a group classification, the flight points are
  \<open>(5 - powered_count) * FLIGHT_FACTOR\<close>, plus \<open>NO_FLIGHT_FACTOR\<close> exactly when the
  classification is the string \<^verbatim>\<open>No O-Flights\<close>; with the factors of the program and a
  count between 0 and 5 they lie between 0 and 25, and between 5 and 30 with the bonus.
\<close>

theorem flight_points_formula:
  "getitem (report row) ''GroupType'' = Inr g \<Longrightarrow>
     calculate_flight_points row =
       Inr ((5 - powered_count row) * FLIGHT_FACTOR +
            (if g = Str ''No O-Flights'' then NO_FLIGHT_FACTOR else 0)) \<and>
     (0 \<le> powered_count row \<and> powered_count row \<le> 5 \<longrightarrow>
        (\<exists>p. calculate_flight_points row = Inr p \<and>
             (if g = Str ''No O-Flights'' then 5 \<le> p \<and> p \<le> 30 else 0 \<le> p \<and> p \<le> 25)))"
  by (simp add: calculate_flight_points_def FLIGHT_FACTOR_def NO_FLIGHT_FACTOR_def)

theorem flight_points_formula_witness:
  "getitem (report \<lparr>report = [(''GroupType'', Str ''No O-Flights'')], powered_count = 3\<rparr>) ''GroupType''
     = Inr (Str ''No O-Flights'') \<and>
   calculate_flight_points \<lparr>report = [(''GroupType'', Str ''No O-Flights'')], powered_count = 3\<rparr> = Inr 15 \<and>
   calculate_flight_points \<lparr>report = [(''GroupType'', Str ''Has Flights'')], powered_count = 3\<rparr> = Inr 10"
  using flight_points_formula
      [of "\<lparr>report = [(''GroupType'', Str ''No O-Flights'')], powered_count = 3\<rparr>" "Str ''No O-Flights''"]
    flight_points_formula
      [of "\<lparr>report = [(''GroupType'', Str ''Has Flights'')], powered_count = 3\<rparr>" "Str ''Has Flights''"]
  by (simp add: getitem_def FLIGHT_FACTOR_def NO_FLIGHT_FACTOR_def)

lemma strptime_valid:
  "strptime s fmt = Some d \<Longrightarrow> valid_date (year d) (month d) (day d)"
  by (auto simp: strptime_def Let_def split: option.splits prod.splits if_splits)

lemma parse_date_valid:
  "parse_date c = Some d \<Longrightarrow> valid_date (year d) (month d) (day d)"
  by (cases c) (auto dest: strptime_valid split: if_splits)

lemma parse_date_empty: "parse_date (Str []) = None"
  by (simp add: strptime_def)

lemma months_nonneg: "0 \<le> calculate_months_since today c"
  by (simp add: calculate_months_since_def split: option.splits)

text \<open>
  Claim C2. When the last powered date parses, the date points are the calendar month
  difference between today and that date (years times 12 plus months, the day ignored),
  floored at 0, times the date factor. Date points are never negative, and they are 0 when
  the date lies in the month of today or in a later one.
\<close>

theorem date_points_months:
  "(parse_date lp = Some d \<longrightarrow>
      calculate_date_points today lp =
        max 0 ((year today - year d) * 12 + (month today - month d)) * DATE_FACTOR) \<and>
   0 \<le> calculate_date_points today lp \<and>
   (parse_date lp = Some d \<and> 1 \<le> month today \<and> month today \<le> 12 \<and>
    (year today < year d \<or> year today = year d \<and> month today \<le> month d) \<longrightarrow>
      calculate_date_points today lp = 0)"
proof (intro conjI impI)
  assume p: "parse_date lp = Some d"
  then have "lp \<noteq> Str []" using parse_date_empty by auto
  with p show "calculate_date_points today lp =
        max 0 ((year today - year d) * 12 + (month today - month d)) * DATE_FACTOR"
    by (simp add: calculate_date_points_def calculate_months_since_def)
next
  show "0 \<le> calculate_date_points today lp"
    using months_nonneg [of today lp] by (simp add: calculate_date_points_def DATE_FACTOR_def)
next
  assume a: "parse_date lp = Some d \<and> 1 \<le> month today \<and> month today \<le> 12 \<and>
    (year today < year d \<or> year today = year d \<and> month today \<le> month d)"
  then have v: "1 \<le> month d \<and> month d \<le> 12"
    using parse_date_valid [of lp d] by (simp add: valid_date_def)
  from a have "lp \<noteq> Str []" using parse_date_empty by auto
  with a v show "calculate_date_points today lp = 0"
    by (auto simp: calculate_date_points_def calculate_months_since_def)
qed

theorem date_points_months_witness:
  "parse_date (Str ''09 Mar 2023'') = Some \<lparr>year = 2023, month = 3, day = 9\<rparr> \<and>
   calculate_date_points \<lparr>year = 2023, month = 9, day = 9\<rparr> (Str ''09 Mar 2023'') = 6 \<and>
   parse_date (Str ''Dec-30'') = Some \<lparr>year = 2030, month = 12, day = 1\<rparr> \<and>
   calculate_date_points \<lparr>year = 2023, month = 9, day = 9\<rparr> (Str ''Dec-30'') = 0"
proof -
  have p1: "parse_date (Str ''09 Mar 2023'') = Some \<lparr>year = 2023, month = 3, day = 9\<rparr>"
    by code_simp
  have p2: "parse_date (Str ''Dec-30'') = Some \<lparr>year = 2030, month = 12, day = 1\<rparr>"
    by code_simp
  show ?thesis
    using p1 p2
      date_points_months [of "Str ''09 Mar 2023''" "\<lparr>year = 2023, month = 3, day = 9\<rparr>"
                             "\<lparr>year = 2023, month = 9, day = 9\<rparr>"]
      date_points_months [of "Str ''Dec-30''" "\<lparr>year = 2030, month = 12, day = 1\<rparr>"
                             "\<lparr>year = 2023, month = 9, day = 9\<rparr>"]
    by (simp add: DATE_FACTOR_def)
qed

section \<open>The last powered date\<close>

lemma powered_col_simps:
  "powered_col 1 = ''powered_1''" "powered_col 2 = ''powered_2''" "powered_col 3 = ''powered_3''"
  "powered_col 4 = ''powered_4''" "powered_col 5 = ''powered_5''"
  "powered_col (Suc 0) = ''powered_1''"
  by (simp_all add: powered_col_def)

text \<open>
  Claim C5, amended. For every record with the five powered columns and the joined column,
  \<open>find_last_powered_date\<close> scans \<open>powered_5\<close> down to \<open>powered_1\<close> and returns the first
  value that is not blank (blank: missing, empty or white space only); when all five are
  blank it returns the joined value as it stands. The value returned is not blank whenever
  one of the five, or the joined value, is not blank.
\<close>

theorem find_last_powered_date_scan:
  assumes "getitem row ''powered_5'' = Inr p5" and "getitem row ''powered_4'' = Inr p4"
    and "getitem row ''powered_3'' = Inr p3" and "getitem row ''powered_2'' = Inr p2"
    and "getitem row ''powered_1'' = Inr p1" and "getitem row ''Joined'' = Inr j"
  shows "find_last_powered_date row =
           Inr (case find filled [p5, p4, p3, p2, p1] of Some v \<Rightarrow> v | None \<Rightarrow> j) \<and>
         (filled p5 \<or> filled p4 \<or> filled p3 \<or> filled p2 \<or> filled p1 \<or> filled j \<longrightarrow>
            (\<exists>v. find_last_powered_date row = Inr v \<and> filled v))"
  using assms by (simp add: find_last_powered_date_def powered_col_simps)

theorem find_last_powered_date_scan_witness:
  "find_last_powered_date
     [(''Joined'', Str ''01 Jan 2020''), (''powered_1'', Str ''Mar-21''), (''powered_2'', Str ''Jun-22''),
      (''powered_3'', Str ''  ''), (''powered_4'', NaN), (''powered_5'', NaN)] = Inr (Str ''Jun-22'') \<and>
   filled (Str ''Jun-22'')"
proof -
  let ?row = "[(''Joined'', Str ''01 Jan 2020''), (''powered_1'', Str ''Mar-21''),
               (''powered_2'', Str ''Jun-22''), (''powered_3'', Str ''  ''),
               (''powered_4'', NaN), (''powered_5'', NaN)]"
  have g: "getitem ?row ''powered_5'' = Inr NaN" "getitem ?row ''powered_4'' = Inr NaN"
    "getitem ?row ''powered_3'' = Inr (Str ''  '')" "getitem ?row ''powered_2'' = Inr (Str ''Jun-22'')"
    "getitem ?row ''powered_1'' = Inr (Str ''Mar-21'')" "getitem ?row ''Joined'' = Inr (Str ''01 Jan 2020'')"
    by (simp_all add: getitem_def)
  have f: "\<not> filled (Str ''  '')" "filled (Str ''Jun-22'')"
    by (simp_all add: strip_def is_space_def)
  from find_last_powered_date_scan [OF g] f show ?thesis by simp
qed

text \<open>
  The claim as stated also says that the value returned is never empty. A record with no
  powered flight and no joined date gets the missing value back.
\<close>

theorem find_last_powered_date_counterexample:
  "find_last_powered_date
     [(''Joined'', NaN), (''powered_1'', NaN), (''powered_2'', NaN), (''powered_3'', NaN),
      (''powered_4'', NaN), (''powered_5'', NaN)] = Inr NaN \<and> \<not> filled NaN"
  by (simp add: find_last_powered_date_def powered_col_simps getitem_def)

section \<open>The required columns\<close>

text \<open>
  Claim C6, amended. The required columns are the five of \<open>REQUIRED_COLUMNS\<close>: Miles,
  Textbox39, Textbox25, GroupType and Joined. A table that has all five passes validation,
  and only such a table. For a table without one of them, validation fails with the schema
  error over exactly the required names that are missing, and \<open>process_data\<close> ends with
  that error before it computes anything.
\<close>

theorem validate_dataframe_required:
  "(validate_dataframe df = Inr () \<longleftrightarrow> set REQUIRED_COLUMNS \<subseteq> set (columns df)) \<and>
   (\<not> set REQUIRED_COLUMNS \<subseteq> set (columns df) \<longrightarrow>
      (\<exists>missing. set missing = set REQUIRED_COLUMNS - set (columns df) \<and>
         validate_dataframe df = Inl (ValueError missing) \<and>
         process_data argsort today df = Inl (ValueError missing)))"
proof -
  let ?m = "filter (\<lambda>c. c \<notin> set (columns df)) REQUIRED_COLUMNS"
  have m: "set ?m = set REQUIRED_COLUMNS - set (columns df)" by auto
  have e: "?m = [] \<longleftrightarrow> set REQUIRED_COLUMNS \<subseteq> set (columns df)"
    by (auto simp: filter_empty_conv)
  have 1: "validate_dataframe df = Inr () \<longleftrightarrow> set REQUIRED_COLUMNS \<subseteq> set (columns df)"
    using e by (simp add: validate_dataframe_def Let_def)
  have 2: "validate_dataframe df = Inl (ValueError ?m)" if "\<not> set REQUIRED_COLUMNS \<subseteq> set (columns df)"
    using that e by (simp add: validate_dataframe_def Let_def)
  then have 3: "process_data argsort today df = Inl (ValueError ?m)"
    if "\<not> set REQUIRED_COLUMNS \<subseteq> set (columns df)"
    using that by (simp add: process_data_def)
  show ?thesis using 1 2 3 m by blast
qed

theorem validate_dataframe_required_witness:
  "validate_dataframe report_no_gliders = Inr () \<and>
   validate_dataframe \<lparr>columns = [''CAPID'', ''Miles'', ''Textbox39'', ''Joined''], cells = []\<rparr>
     = Inl (ValueError [''Textbox25'', ''GroupType'']) \<and>
   process_data ref_argsort sep_2023
     \<lparr>columns = [''CAPID'', ''Miles'', ''Textbox39'', ''Joined''], cells = []\<rparr>
     = Inl (ValueError [''Textbox25'', ''GroupType''])"
proof -
  let ?bad = "\<lparr>columns = [''CAPID'', ''Miles'', ''Textbox39'', ''Joined''], cells = []\<rparr>"
  have g: "set REQUIRED_COLUMNS \<subseteq> set (columns report_no_gliders)"
    by (simp add: REQUIRED_COLUMNS_def report_no_gliders_def)
  have b: "\<not> set REQUIRED_COLUMNS \<subseteq> set (columns ?bad)"
    by (simp add: REQUIRED_COLUMNS_def)
  have v: "validate_dataframe ?bad = Inl (ValueError [''Textbox25'', ''GroupType''])"
    by (simp add: validate_dataframe_def REQUIRED_COLUMNS_def)
  from validate_dataframe_required [of ?bad ref_argsort sep_2023] b
  obtain missing where "validate_dataframe ?bad = Inl (ValueError missing)"
    and "process_data ref_argsort sep_2023 ?bad = Inl (ValueError missing)"
    by blast
  with v have "process_data ref_argsort sep_2023 ?bad = Inl (ValueError [''Textbox25'', ''GroupType''])"
    by simp
  moreover from validate_dataframe_required [of report_no_gliders] g
  have "validate_dataframe report_no_gliders = Inr ()" by blast
  ultimately show ?thesis using v by simp
qed

text \<open>
  The claim as stated counts the ten activity columns Textbox130 to Textbox139 among the
  required ones. A table without Textbox130 (it has none of the glider columns) passes
  validation and is scored to the end.
\<close>

theorem validate_dataframe_counterexample:
  "''Textbox130'' \<notin> set (columns report_no_gliders) \<and>
   validate_dataframe report_no_gliders = Inr () \<and>
   process_data ref_argsort sep_2023 report_no_gliders =
     Inr [\<lparr>report = [(''18+'', NaN), (''Wing'', Str ''W''), (''Unit'', Str ''U''),
                      (''GroupType'', Str ''No O-Flights''), (''Joined'', Str ''01 Jan 2023''),
                      (''powered_1'', NaN), (''powered_2'', NaN), (''powered_3'', NaN),
                      (''powered_4'', NaN), (''powered_5'', NaN)],
           powered_count = 0, last_powered = Str ''01 Jan 2023'', flight_points = 30,
           date_points = 8, total_points = 38\<rparr>]"
  by code_simp

section \<open>The two date formats\<close>

lemma first_some_SomeD:
  "first_some f xs = Some y \<Longrightarrow> \<exists>x \<in> set xs. f x = Some y"
  by (induction xs) (auto split: option.splits)

lemma re_match_ConsD:
  assumes "re_match (t # ts) s = Some (f, e)"
  shows "\<exists>m r f'. (m, r) \<in> set (alts t s) \<and> re_match ts r = Some (f', e) \<and> f = (t, m) # f'"
proof -
  from assms obtain mr where mr: "mr \<in> set (alts t s)"
    and eq: "map_option (\<lambda>fe. ((t, fst mr) # fst fe, snd fe)) (re_match ts (snd mr)) = Some (f, e)"
    by (auto dest: first_some_SomeD)
  from eq obtain fe where fe: "re_match ts (snd mr) = Some fe" "f = (t, fst mr) # fst fe" "e = snd fe"
    by auto
  show ?thesis
    by (rule exI [of _ "fst mr"], rule exI [of _ "snd mr"], rule exI [of _ "fst fe"])
       (use mr fe in auto)
qed

lemma try1_D: "(m, r) \<in> set (try1 P s) \<Longrightarrow> \<exists>a. m = [a] \<and> s = a # r \<and> P a"
  by (cases s) (auto split: if_splits)

lemma try2_D: "(m, r) \<in> set (try2 P s) \<Longrightarrow> \<exists>a b. m = [a, b] \<and> s = a # b # r \<and> P a b"
  by (induction P s rule: try2.induct) (auto split: if_splits)

lemma month_name_length: "n \<in> set (tl a_month) \<Longrightarrow> length n = 3"
  by (auto simp: a_month_def)

lemma alts_b_D:
  "(m, r) \<in> set (alts Dir_b s) \<Longrightarrow> s = m @ r \<and> map lower m \<in> set (tl a_month) \<and> length m = 3"
  using month_name_length [of "map lower (take 3 s)"] by (auto split: if_splits)

lemma alts_lit_D: "(m, r) \<in> set (alts (Literal c) s) \<Longrightarrow> m = [c] \<and> s = c # r"
  by (auto dest: try1_D)

lemma alts_y_D:
  "(m, r) \<in> set (alts Dir_y s) \<Longrightarrow> \<exists>a b. m = [a, b] \<and> s = a # b # r \<and> is_digit a \<and> is_digit b"
  by (auto dest: try2_D)

lemma alts_d_D:
  "(m, r) \<in> set (alts Dir_d s) \<Longrightarrow>
     (\<exists>a. m = [a] \<and> s = a # r) \<or> (\<exists>a b. m = [a, b] \<and> s = a # b # r)"
  by (auto dest!: try1_D try2_D)

text \<open>
  A text with \<^verbatim>\<open>-01\<close> appended that matches \<^verbatim>\<open>%b-%y-%d\<close> is a month name, a hyphen and
  two digits: the day group can only be the appended \<^verbatim>\<open>01\<close>.
\<close>

lemma first_format_shape:
  assumes "re_match [Dir_b, Literal CHR ''-'', Dir_y, Literal CHR ''-'', Dir_d] (s @ ''-01'') = Some (f, [])"
  shows "\<exists>m y1 y2. s = m @ [CHR ''-'', y1, y2] \<and> length m = 3 \<and>
           f = [(Dir_b, m), (Literal CHR ''-'', ''-''), (Dir_y, [y1, y2]),
                (Literal CHR ''-'', ''-''), (Dir_d, ''01'')]"
proof -
  from re_match_ConsD [OF assms] obtain m1 r1 f1 where
    a1: "(m1, r1) \<in> set (alts Dir_b (s @ ''-01''))" and
    b1: "re_match [Literal CHR ''-'', Dir_y, Literal CHR ''-'', Dir_d] r1 = Some (f1, [])" and
    c1: "f = (Dir_b, m1) # f1" by blast
  from re_match_ConsD [OF b1] obtain m2 r2 f2 where
    a2: "(m2, r2) \<in> set (alts (Literal CHR ''-'') r1)" and
    b2: "re_match [Dir_y, Literal CHR ''-'', Dir_d] r2 = Some (f2, [])" and
    c2: "f1 = (Literal CHR ''-'', m2) # f2" by blast
  from re_match_ConsD [OF b2] obtain m3 r3 f3 where
    a3: "(m3, r3) \<in> set (alts Dir_y r2)" and
    b3: "re_match [Literal CHR ''-'', Dir_d] r3 = Some (f3, [])" and
    c3: "f2 = (Dir_y, m3) # f3" by blast
  from re_match_ConsD [OF b3] obtain m4 r4 f4 where
    a4: "(m4, r4) \<in> set (alts (Literal CHR ''-'') r3)" and
    b4: "re_match [Dir_d] r4 = Some (f4, [])" and
    c4: "f3 = (Literal CHR ''-'', m4) # f4" by blast
  from re_match_ConsD [OF b4] obtain m5 r5 f5 where
    a5: "(m5, r5) \<in> set (alts Dir_d r4)" and
    b5: "re_match [] r5 = Some (f5, [])" and
    c5: "f4 = (Dir_d, m5) # f5" by blast
  from b5 have e5: "r5 = []" "f5 = []" by auto
  from alts_b_D [OF a1] have s1: "s @ ''-01'' = m1 @ r1" and l1: "length m1 = 3" by simp_all
  from alts_lit_D [OF a2] have s2: "m2 = ''-''" "r1 = CHR ''-'' # r2" by auto
  from alts_y_D [OF a3] obtain y1 y2 where
    s3: "m3 = [y1, y2]" "r2 = y1 # y2 # r3" "is_digit y2" by auto
  from alts_lit_D [OF a4] have s4: "m4 = ''-''" "r3 = CHR ''-'' # r4" by auto
  from alts_d_D [OF a5] e5 consider
    a where "m5 = [a]" "r4 = [a]" | a b where "m5 = [a, b]" "r4 = [a, b]"
    by auto
  then show ?thesis
  proof cases
    case 1
    with s1 s2 s3 s4 have "s @ ''-01'' = (m1 @ [CHR ''-'', y1]) @ [y2, CHR ''-'', a]" by simp
    then have "''-01'' = [y2, CHR ''-'', a]" by (subst (asm) append_eq_append_conv) auto
    with s3 show ?thesis by (simp add: is_digit_def)
  next
    case 2
    with s1 s2 s3 s4 have "s @ ''-01'' = (m1 @ [CHR ''-'', y1, y2]) @ [CHR ''-'', a, b]" by simp
    then have "s = m1 @ [CHR ''-'', y1, y2] \<and> ''-01'' = [CHR ''-'', a, b]"
      by (subst (asm) append_eq_append_conv) auto
    with 2 c1 c2 c3 c4 c5 e5 s2 s3 s4 l1 show ?thesis by auto
  qed
qed

lemma first_format_day:
  assumes "strptime (s @ ''-01'') [Dir_b, Literal CHR ''-'', Dir_y, Literal CHR ''-'', Dir_d] = Some d"
  shows "day d = 1 \<and> length s = 6"
proof -
  from assms obtain f where
    m: "re_match [Dir_b, Literal CHR ''-'', Dir_y, Literal CHR ''-'', Dir_d] (s @ ''-01'') = Some (f, [])"
    and d: "d = fold convert f \<lparr>year = 1900, month = 1, day = 1\<rparr>"
    by (auto simp: strptime_def Let_def split: option.splits prod.splits if_splits)
  from first_format_shape [OF m] obtain mo y1 y2 where
    s: "s = mo @ [CHR ''-'', y1, y2]" and l: "length mo = 3" and
    f: "f = [(Dir_b, mo), (Literal CHR ''-'', ''-''), (Dir_y, [y1, y2]),
             (Literal CHR ''-'', ''-''), (Dir_d, ''01'')]"
    by blast
  have "py_int ''01'' = 1" by code_simp
  then show ?thesis using d f s l by simp
qed

text \<open>
  Claim C7. A date string that splits on hyphens into exactly two parts is parsed as
  abbreviated month and two-digit year, with \<^verbatim>\<open>-01\<close> appended, so that a date it yields is
  the first of its month; any other string is parsed as day, abbreviated month and
  four-digit year. When the parse fails the result is the absent value, and the record
  gets 0 months and 0 date points: no error leaves \<open>calculate_date_points\<close>.
\<close>

theorem parse_date_formats:
  "(length (str_split s CHR ''-'') = 2 \<longrightarrow>
      parse_date (Str s) =
        strptime (s @ ''-01'') [Dir_b, Literal CHR ''-'', Dir_y, Literal CHR ''-'', Dir_d] \<and>
      (parse_date (Str s) = Some d \<longrightarrow> day d = 1)) \<and>
   (length (str_split s CHR ''-'') \<noteq> 2 \<longrightarrow>
      parse_date (Str s) = strptime s [Dir_d, Spaces, Dir_b, Spaces, Dir_Y]) \<and>
   (parse_date c = None \<longrightarrow>
      calculate_months_since today c = 0 \<and> calculate_date_points today c = 0)"
proof (intro conjI impI)
  assume "parse_date c = None"
  then show "calculate_months_since today c = 0" "calculate_date_points today c = 0"
    by (simp_all add: calculate_date_points_def calculate_months_since_def)
next
  assume "length (str_split s CHR ''-'') = 2" and "parse_date (Str s) = Some d"
  then show "day d = 1" using first_format_day [of s d] by simp
qed simp_all

theorem parse_date_formats_witness:
  "length (str_split ''Mar-25'' CHR ''-'') = 2 \<and>
   parse_date (Str ''Mar-25'') = Some \<lparr>year = 2025, month = 3, day = 1\<rparr> \<and>
   length (str_split ''09 Mar 2023'' CHR ''-'') = 1 \<and>
   strptime ''09 Mar 2023'' [Dir_d, Spaces, Dir_b, Spaces, Dir_Y]
     = Some \<lparr>year = 2023, month = 3, day = 9\<rparr> \<and>
   parse_date (Str ''2023-03-09'') = None \<and>
   calculate_date_points \<lparr>year = 2023, month = 9, day = 9\<rparr> (Str ''2023-03-09'') = 0"
proof -
  have a: "length (str_split ''Mar-25'' CHR ''-'') = 2" by code_simp
  have b: "parse_date (Str ''Mar-25'') = Some \<lparr>year = 2025, month = 3, day = 1\<rparr>" by code_simp
  have c: "length (str_split ''09 Mar 2023'' CHR ''-'') = 1" by code_simp
  have d: "parse_date (Str ''09 Mar 2023'') = Some \<lparr>year = 2023, month = 3, day = 9\<rparr>" by code_simp
  have e: "parse_date (Str ''2023-03-09'') = None" by code_simp
  from parse_date_formats [of "''09 Mar 2023''"] c d
  have "strptime ''09 Mar 2023'' [Dir_d, Spaces, Dir_b, Spaces, Dir_Y]
          = Some \<lparr>year = 2023, month = 3, day = 9\<rparr>" by simp
  moreover from parse_date_formats [of _ _ "Str ''2023-03-09''" "\<lparr>year = 2023, month = 9, day = 9\<rparr>"] e
  have "calculate_date_points \<lparr>year = 2023, month = 9, day = 9\<rparr> (Str ''2023-03-09'') = 0"
    by simp
  moreover from parse_date_formats [of "''Mar-25''" "\<lparr>year = 2025, month = 3, day = 1\<rparr>"] a b
  have "day \<lparr>year = 2025, month = 3, day = 1\<rparr> = 1" by simp
  ultimately show ?thesis using a b c e by simp
qed

section \<open>The candidate list\<close>

lemma set_keep_first: "set (keep_first xs) = set xs"
  by (induction xs rule: keep_first.induct) auto

lemma distinct_keep_first: "distinct (keep_first xs)"
  by (induction xs rule: keep_first.induct) (auto simp: set_keep_first)

lemma subseq_keep_first: "subseq (keep_first xs) xs"
proof (induction xs rule: keep_first.induct)
  case 1
  show ?case by simp
next
  case (2 x xs)
  have "subseq (filter (\<lambda>y. y \<noteq> x) xs) xs" by simp
  with 2 have "subseq (keep_first (filter (\<lambda>y. y \<noteq> x) xs)) xs"
    using subseq_order.order_trans by blast
  then show ?case by simp
qed

text \<open>The loop, started with any list and the set of its members as the identifiers seen.\<close>

lemma read_loop_keep_first:
  "read_loop ls acc (set acc) =
     acc @ keep_first (filter (\<lambda>x. x \<notin> set acc) (filter (\<lambda>s. s \<noteq> []) (map strip ls)))"
proof (induction ls arbitrary: acc)
  case Nil
  show ?case by simp
next
  case (Cons l ls)
  let ?c = "strip l"
  show ?case
  proof (cases "?c \<noteq> [] \<and> ?c \<notin> set acc")
    case True
    have eq: "filter (\<lambda>y. y \<noteq> ?c) (filter (\<lambda>x. x \<notin> set acc) zs) =
          filter (\<lambda>x. x \<notin> set (acc @ [?c])) zs" for zs
      by (induction zs) auto
    have "read_loop (l # ls) acc (set acc) = read_loop ls (acc @ [?c]) (set (acc @ [?c]))"
      using True by (simp add: Let_def)
    also have "\<dots> = (acc @ [?c]) @ keep_first (filter (\<lambda>x. x \<notin> set (acc @ [?c]))
                        (filter (\<lambda>s. s \<noteq> []) (map strip ls)))"
      by (rule Cons.IH)
    finally show ?thesis using True by (simp add: eq del: filter_filter)
  next
    case False
    then have "read_loop (l # ls) acc (set acc) = read_loop ls acc (set acc)"
      by (auto simp: Let_def)
    with Cons.IH [of acc] False show ?thesis by (auto simp del: filter_filter)
  qed
qed

lemma read_cadet_list_Some:
  "read_cadet_list (Some ls) = keep_first (filter (\<lambda>s. s \<noteq> []) (map strip ls))"
  using read_loop_keep_first [of ls "[]"] by (simp add: read_cadet_list_def)

lemma distinct_read_cadet_list: "distinct (read_cadet_list src)"
proof (cases src)
  case None
  then show ?thesis by (simp add: read_cadet_list_def)
next
  case (Some ls)
  then show ?thesis by (simp add: read_cadet_list_Some distinct_keep_first)
qed

lemma isin_iff: "isin v cs \<longleftrightarrow> (\<exists>s \<in> set cs. v = TextVal s)"
  by (cases v) auto

lemma length_sort_values:
  "sorts_descending argsort \<Longrightarrow> length (sort_values argsort by df) = length df"
proof -
  assume a: "sorts_descending argsort"
  let ?ix = "argsort (map by df)"
  from a have "distinct ?ix" and "set ?ix = {0 ..< length (map by df)}"
    by (simp_all add: sorts_descending_def)
  then have "length ?ix = card {0 ..< length df}" using distinct_card [of ?ix] by simp
  then show ?thesis by (simp add: sort_values_def)
qed

text \<open>
  Claim C9. \<open>read_cadet_list\<close> returns the lines with the white space around them trimmed,
  the blank ones skipped, and of equal ones only the first kept, in the order of the file:
  the result has no duplicates and is a subsequence of the trimmed lines that are not
  blank. When the file cannot be opened or read the result is the empty list, and the
  caller goes on with no candidate, nothing filtered and nothing unmatched.
\<close>

theorem read_cadet_list_dedup:
  assumes "sorts_descending argsort"
  shows "read_cadet_list None = [] \<and>
         read_cadet_list (Some ls) = keep_first (filter (\<lambda>s. s \<noteq> []) (map strip ls)) \<and>
         distinct (read_cadet_list src) \<and>
         subseq (read_cadet_list (Some ls)) (filter (\<lambda>s. s \<noteq> []) (map strip ls)) \<and>
         set (read_cadet_list (Some ls)) = set (filter (\<lambda>s. s \<noteq> []) (map strip ls)) \<and>
         slots_command argsort None df slot_count = write_slotting_results [] [] slot_count"
proof -
  have "length (sort_values argsort total_points ([] :: listed list)) = 0"
    using length_sort_values [OF assms, of total_points "[]"] by simp
  then have "slots_command argsort None df slot_count = write_slotting_results [] [] slot_count"
    by (simp add: slots_command_def read_cadet_list_def filter_cadets_def find_unmatched_def isin_iff)
  moreover have "read_cadet_list None = []"
    by (simp add: read_cadet_list_def)
  moreover have "subseq (read_cadet_list (Some ls)) (filter (\<lambda>s. s \<noteq> []) (map strip ls))"
    unfolding read_cadet_list_Some by (rule subseq_keep_first)
  moreover have "set (read_cadet_list (Some ls)) = set (filter (\<lambda>s. s \<noteq> []) (map strip ls))"
    unfolding read_cadet_list_Some by (rule set_keep_first)
  ultimately show ?thesis
    using distinct_read_cadet_list [of src] read_cadet_list_Some [of ls] by blast
qed

theorem read_cadet_list_dedup_witness:
  "read_cadet_list (Some [''100\<newline>'', ''  200 \<newline>'', ''100\<newline>'', ''\<newline>'', ''300''])
     = [''100'', ''200'', ''300''] \<and>
   slots_command ref_argsort None [points_row (IntVal 100) 33] (Some 1)
     = [Text ''Cadets sorted by total points:'', Rule 70, Header]"
proof -
  have k: "keep_first (filter (\<lambda>s. s \<noteq> [])
             (map strip [''100\<newline>'', ''  200 \<newline>'', ''100\<newline>'', ''\<newline>'', ''300'']))
           = [''100'', ''200'', ''300'']"
    by code_simp
  have w: "write_slotting_results [] [] (Some 1) = [Text ''Cadets sorted by total points:'', Rule 70, Header]"
    by (simp add: write_slotting_results_def write_rows_def py_enumerate_def)
  from read_cadet_list_dedup [OF ref_argsort_sorts,
      of "[''100\<newline>'', ''  200 \<newline>'', ''100\<newline>'', ''\<newline>'', ''300'']" _ _ "Some 1"] k w
  show ?thesis by simp
qed

section \<open>The slots\<close>

lemma filter_cadets_ids:
  "map CAPID (filter_cadets cap_ids df) =
     filter (\<lambda>v. isin v cap_ids) (map (\<lambda>r. astype_str (CAPID r)) df)"
  by (induction df) (auto simp: filter_cadets_def Let_def)

lemma length_head_iloc: "length (head n df) + length (iloc_from n df) = length df"
  by (auto simp: head_def iloc_from_def min_def)

lemma matched_plus_unmatched:
  assumes "distinct (map (\<lambda>r. astype_str (CAPID r)) df)" and "distinct cap_ids"
  shows "length (filter_cadets cap_ids df) + length (find_unmatched cap_ids (filter_cadets cap_ids df))
           = length cap_ids"
proof -
  let ?ids = "map (\<lambda>r. astype_str (CAPID r)) df"
  let ?P = "\<lambda>c. TextVal c \<in> set ?ids"
  let ?m = "filter (\<lambda>v. isin v cap_ids) ?ids"
  have m: "map CAPID (filter_cadets cap_ids df) = ?m" by (rule filter_cadets_ids)
  have "find_unmatched cap_ids (filter_cadets cap_ids df) = filter (\<lambda>c. TextVal c \<notin> set ?m) cap_ids"
    by (simp add: find_unmatched_def m)
  also have "\<dots> = filter (\<lambda>c. \<not> ?P c) cap_ids"
    by (rule filter_cong) (auto simp: isin_iff)
  finally have u: "length (find_unmatched cap_ids (filter_cadets cap_ids df)) =
      length (filter (\<lambda>c. \<not> ?P c) cap_ids)" by simp
  have "set ?m = set (map TextVal (filter ?P cap_ids))"
  proof (intro set_eqI iffI)
    fix v
    assume "v \<in> set ?m"
    then have vi: "v \<in> set ?ids" and "isin v cap_ids" by auto
    then obtain s where sv: "s \<in> set cap_ids" "v = TextVal s"
      by (auto simp: isin_iff)
    with vi have "s \<in> {c \<in> set cap_ids. ?P c}" by simp
    with \<open>v = TextVal s\<close> show "v \<in> set (map TextVal (filter ?P cap_ids))" by simp
  next
    fix v
    assume "v \<in> set (map TextVal (filter ?P cap_ids))"
    then show "v \<in> set ?m" by (auto simp: isin_iff)
  qed
  moreover have "distinct ?m" using assms(1) by simp
  moreover have "distinct (map TextVal (filter ?P cap_ids))"
    using assms(2) by (simp add: distinct_map inj_on_def)
  ultimately have "length ?m = length (map TextVal (filter ?P cap_ids))"
    by (metis distinct_card)
  then have "length (filter_cadets cap_ids df) = length (filter ?P cap_ids)"
    using m by (metis length_map)
  with u show ?thesis using sum_length_filter_compl [of ?P cap_ids] by simp
qed

text \<open>
  Claim C10. With a slot count of exactly 0, \<open>write_slotting_results\<close> writes the single
  list of all the records, whatever their number, as it does when no slot count is given:
  there is no primary and no alternates section.
\<close>

theorem zero_slot_count:
  "write_slotting_results sorted_df unmatched_ids (Some 0) =
     [Text ''Cadets sorted by total points:'', Rule 70, Header] @ write_rows 1 sorted_df @
     (if unmatched_ids \<noteq> []
      then [Text [], Text ''Unmatched CAP IDs:'', Rule 20] @ map Text unmatched_ids else []) \<and>
   write_slotting_results sorted_df unmatched_ids (Some 0) =
     write_slotting_results sorted_df unmatched_ids None"
  by (simp add: write_slotting_results_def)

text \<open>
  Claim C4, amended. For a sort that keeps the library's promise and a slot count \<open>N\<close> of
  at least 1, the report is the one the spec describes: with more than \<open>N\<close> filtered records
  the first \<open>N\<close> in rank order are the primary group and the rest the alternates, otherwise
  there is one list; with no slot count, or the slot count 0, there is one list. The two
  groups always have the size of the filtered set together. The unmatched identifiers are a
  subsequence of the candidate list, and when no identifier occurs twice in the table of
  points, the filtered records and the unmatched identifiers together are as many as the
  candidates.
\<close>

theorem slot_partition:
  assumes "sorts_descending argsort"
  shows
    "(let cap_ids = read_cadet_list src;
          filtered_df = filter_cadets cap_ids df;
          sorted_df = sort_values argsort total_points filtered_df;
          unmatched_ids = find_unmatched cap_ids filtered_df
      in slots_command argsort src df slot_count =
           write_slotting_results sorted_df unmatched_ids slot_count \<and>
         ((slot_count = None \<or> (\<exists>n. slot_count = Some n \<and> 1 \<le> n)) \<longrightarrow>
            write_slotting_results sorted_df unmatched_ids slot_count =
              spec_slotting_results sorted_df unmatched_ids slot_count) \<and>
         (slot_count = Some 0 \<longrightarrow>
            write_slotting_results sorted_df unmatched_ids slot_count =
              spec_slotting_results sorted_df unmatched_ids None) \<and>
         (\<forall>n. length (head n sorted_df) + length (iloc_from n sorted_df) = length filtered_df) \<and>
         subseq unmatched_ids cap_ids \<and>
         (distinct (map (\<lambda>r. astype_str (CAPID r)) df) \<longrightarrow>
            length filtered_df + length unmatched_ids = length cap_ids))"
proof -
  have 1: "(slot_count = None \<or> (\<exists>n. slot_count = Some n \<and> 1 \<le> n)) \<longrightarrow>
            write_slotting_results s u slot_count = spec_slotting_results s u slot_count" for s u
    by (auto simp: write_slotting_results_def spec_slotting_results_def head_def iloc_from_def)
  have 0: "slot_count = Some 0 \<longrightarrow>
            write_slotting_results s u slot_count = spec_slotting_results s u None" for s u
    by (auto simp: write_slotting_results_def spec_slotting_results_def)
  have 2: "length (head n (sort_values argsort total_points f)) +
           length (iloc_from n (sort_values argsort total_points f)) = length f"
    for n and f :: "listed list"
    using length_sort_values [OF assms, of total_points f] length_head_iloc by metis
  have 3: "subseq (find_unmatched c f) c" for c f
    by (simp add: find_unmatched_def)
  show ?thesis
    using 0 1 2 3 matched_plus_unmatched [OF _ distinct_read_cadet_list, of df src]
    by (simp add: Let_def slots_command_def)
qed

theorem slot_partition_witness:
  "slots_command ref_argsort (Some [''100'', ''200'', ''100'', ''300''])
     [points_row (IntVal 100) 11, points_row (IntVal 300) 38] (Some 1) =
     [Text ''Primary Slots:'', Rule 70, Header, Entry 1 (points_row (TextVal ''300'') 38),
      Text [], Text ''Alternates:'', Rule 70, Header, Entry 2 (points_row (TextVal ''100'') 11),
      Text [], Text ''Unmatched CAP IDs:'', Rule 20, Text ''200'']"
proof -
  let ?df = "[points_row (IntVal 100) 11, points_row (IntVal 300) 38]"
  let ?a = "points_row (TextVal ''100'') 11"
  let ?b = "points_row (TextVal ''300'') 38"
  have c: "read_cadet_list (Some [''100'', ''200'', ''100'', ''300'']) = [''100'', ''200'', ''300'']"
    by code_simp
  have f: "filter_cadets [''100'', ''200'', ''300''] ?df = [?a, ?b]"
    by code_simp
  have s: "sort_values ref_argsort total_points [?a, ?b] = [?b, ?a]"
    by code_simp
  have u: "find_unmatched [''100'', ''200'', ''300''] [?a, ?b] = [''200'']"
    by code_simp
  have w: "spec_slotting_results [?b, ?a] [''200''] (Some 1) =
     [Text ''Primary Slots:'', Rule 70, Header, Entry 1 ?b,
      Text [], Text ''Alternates:'', Rule 70, Header, Entry 2 ?a,
      Text [], Text ''Unmatched CAP IDs:'', Rule 20, Text ''200'']"
    by code_simp
  from slot_partition [OF ref_argsort_sorts, of "Some [''100'', ''200'', ''100'', ''300'']" ?df "Some 1"]
  have "slots_command ref_argsort (Some [''100'', ''200'', ''100'', ''300'']) ?df (Some 1) =
          spec_slotting_results [?b, ?a] [''200''] (Some 1)"
    unfolding Let_def c f s u by simp
  with w show ?thesis by simp
qed

text \<open>
  The claim as stated fails twice. With the slot count 0 and one record, which is more than
  0, the program writes the single list, where the claim has an empty primary group and the
  record among the alternates. And a table of points in which an identifier occurs twice
  gives two filtered records for one candidate.
\<close>

theorem slot_partition_counterexample:
  "write_slotting_results [points_row (TextVal ''100'') 11] [] (Some 0) =
     [Text ''Cadets sorted by total points:'', Rule 70, Header,
      Entry 1 (points_row (TextVal ''100'') 11)] \<and>
   spec_slotting_results [points_row (TextVal ''100'') 11] [] (Some 0) =
     [Text ''Primary Slots:'', Rule 70, Header, Text [], Text ''Alternates:'', Rule 70, Header,
      Entry 1 (points_row (TextVal ''100'') 11)] \<and>
   read_cadet_list (Some [''100'']) = [''100''] \<and>
   length (filter_cadets [''100''] [points_row (IntVal 100) 11, points_row (IntVal 100) 11]) = 2 \<and>
   find_unmatched [''100'']
     (filter_cadets [''100''] [points_row (IntVal 100) 11, points_row (IntVal 100) 11]) = []"
  by code_simp

section \<open>Identifiers with leading zeros\<close>

text \<open>
  Claim C8 says that identifiers are compared as text everywhere, so that the candidate
  \<^verbatim>\<open>0100\<close> matches the record \<^verbatim>\<open>0100\<close> and not the record \<^verbatim>\<open>100\<close>. The program turns the
  column into strings only after \<^verbatim>\<open>read_csv\<close> has read it as integers: the field
  \<^verbatim>\<open>0100\<close> arrives as the integer 100 and becomes the string \<^verbatim>\<open>100\<close>. The candidate
  \<^verbatim>\<open>0100\<close> is then unmatched, and the candidate \<^verbatim>\<open>100\<close> matches the record.
\<close>

theorem capid_leading_zero:
  "read_csv_ids [''0100''] = [IntVal 100] \<and>
   filter_cadets [''0100''] (map (\<lambda>v. points_row v 11) (read_csv_ids [''0100''])) = [] \<and>
   find_unmatched [''0100''] [] = [''0100''] \<and>
   filter_cadets [''100''] (map (\<lambda>v. points_row v 11) (read_csv_ids [''0100''])) =
     [points_row (TextVal ''100'') 11]"
  by code_simp

end
